theory Spec2Isabelle
  imports Complex_Main "HOL-Library.Multiset"
begin

section \<open>JavaScript string and path primitives used by the analyzer\<close>

text \<open>
  File names are modelled as \<open>string\<close> (lists of 8-bit characters); the functions below
  follow the ECMAScript string methods on ASCII text, which is what the tables of the
  analyzer contain.
\<close>

definition upper_letters :: string where
  "upper_letters = ''ABCDEFGHIJKLMNOPQRSTUVWXYZ''"

definition lower_letters :: string where
  "lower_letters = ''abcdefghijklmnopqrstuvwxyz''"

text \<open>\<open>String.prototype.toLowerCase\<close>, on ASCII letters.\<close>

definition lower_char :: "char \<Rightarrow> char" where
  "lower_char c = (case map_of (zip upper_letters lower_letters) c of
                     Some d \<Rightarrow> d | None \<Rightarrow> c)"

definition toLowerCase :: "string \<Rightarrow> string" where
  "toLowerCase s = map lower_char s"

text \<open>\<open>s.startsWith(p)\<close>.\<close>

definition startsWith :: "string \<Rightarrow> string \<Rightarrow> bool" where
  "startsWith s p = (take (length p) s = p)"

text \<open>\<open>s.includes(sub)\<close>: \<open>sub\<close> occurs at some position of \<open>s\<close>.\<close>

fun includes_str :: "string \<Rightarrow> string \<Rightarrow> bool" where
  "includes_str [] sub = (sub = [])"
| "includes_str (c # cs) sub = (startsWith (c # cs) sub \<or> includes_str cs sub)"

text \<open>\<open>s.split(sep)\<close> for a one-character separator: always at least one piece.\<close>

fun split_on :: "char \<Rightarrow> string \<Rightarrow> string list" where
  "split_on sep [] = [[]]"
| "split_on sep (c # cs) =
     (if c = sep then [] # split_on sep cs
      else (case split_on sep cs of
              [] \<Rightarrow> [[c]]
            | l # ls \<Rightarrow> (c # l) # ls))"

definition slash :: char where
  "slash = CHR ''/''"

definition dot :: char where
  "dot = CHR ''.''"

text \<open>
  Node's \<open>path.basename(p)\<close> (POSIX flavour, no suffix argument): trailing slashes are
  ignored and the last portion of the path is returned.
\<close>

definition basename :: "string \<Rightarrow> string" where
  "basename p =
     rev (takeWhile (\<lambda>c. c \<noteq> slash) (dropWhile (\<lambda>c. c = slash) (rev p)))"

text \<open>
  Node's \<open>path.extname(p)\<close> (POSIX flavour): the text from the last dot of the last
  portion of the path to its end; the empty string when that portion has no dot, when its
  only dot is its first character, or when the portion is \<open>..\<close>.
\<close>

definition extname :: "string \<Rightarrow> string" where
  "extname p =
     (let b = basename p;
          suffix = takeWhile (\<lambda>c. c \<noteq> dot) (rev b);
          stem = drop (Suc (length suffix)) (rev b)
      in if dot \<notin> set b then []
         else if stem = [] then []
         else if b = [dot, dot] then []
         else dot # rev suffix)"

section \<open>FileAnalyzer\<close>

record ChangedFile =
  filename :: string
  status :: string
  changes :: nat
  patch :: "string option"

record ReviewCandidate = ChangedFile +
  language :: string
  reviewPriority :: int

text \<open>
  The configuration object. \<open>maxFiles\<close> is a JavaScript number that the caller's
  validator keeps in 1..100; the analyzer itself does not check it.
\<close>

record Config =
  maxFiles :: int
  excludePatterns :: "string list"

definition languageMap :: "(string \<times> string) list" where
  "languageMap =
    [(''.js'', ''javascript''), (''.jsx'', ''javascript''),
     (''.ts'', ''typescript''), (''.tsx'', ''typescript''),
     (''.py'', ''python''), (''.java'', ''java''), (''.cs'', ''csharp''),
     (''.cpp'', ''cpp''), (''.c'', ''c''), (''.h'', ''c''), (''.hpp'', ''cpp''),
     (''.php'', ''php''), (''.rb'', ''ruby''), (''.go'', ''go''), (''.rs'', ''rust''),
     (''.swift'', ''swift''), (''.kt'', ''kotlin''), (''.scala'', ''scala''),
     (''.sh'', ''bash''), (''.bash'', ''bash''), (''.zsh'', ''bash''),
     (''.ps1'', ''powershell''), (''.sql'', ''sql''), (''.html'', ''html''),
     (''.css'', ''css''), (''.scss'', ''scss''), (''.sass'', ''sass''),
     (''.less'', ''less''), (''.vue'', ''vue''), (''.svelte'', ''svelte''),
     (''.yaml'', ''yaml''), (''.yml'', ''yaml''), (''.json'', ''json''),
     (''.xml'', ''xml''), (''.md'', ''markdown''), (''.dockerfile'', ''dockerfile''),
     (''.r'', ''r''), (''.m'', ''matlab''), (''.pl'', ''perl''), (''.lua'', ''lua''),
     (''.dart'', ''dart''), (''.elm'', ''elm''), (''.ex'', ''elixir''),
     (''.exs'', ''elixir''), (''.clj'', ''clojure''), (''.fs'', ''fsharp''),
     (''.vb'', ''vbnet''), (''.nim'', ''nim''), (''.zig'', ''zig'')]"

text \<open>\<open>detectLanguage(filename)\<close>: the two special names are compared with the whole
  lower-cased argument, then the extension is looked up, with \<open>'text'\<close> as fallback.\<close>

definition detectLanguage :: "string \<Rightarrow> string" where
  "detectLanguage fname =
     (let ext = toLowerCase (extname fname) in
      if toLowerCase fname = ''dockerfile'' then ''dockerfile''
      else if toLowerCase fname = ''makefile'' then ''makefile''
      else (case map_of languageMap ext of Some l \<Rightarrow> l | None \<Rightarrow> ''text''))"

definition specialFiles :: "string list" where
  "specialFiles =
    [''dockerfile'', ''makefile'', ''rakefile'', ''gemfile'', ''podfile'',
     ''package.json'', ''composer.json'', ''pom.xml'', ''build.gradle'',
     ''cargo.toml'', ''requirements.txt'', ''setup.py'', ''tsconfig.json'',
     ''eslintrc'', ''prettierrc'', ''gitignore'', ''gitattributes'',
     ''editorconfig'']"

definition isCodeFile :: "string \<Rightarrow> bool" where
  "isCodeFile fname =
     (let ext = toLowerCase (extname fname);
          base = toLowerCase (basename fname)
      in if ext \<in> set (map fst languageMap) then True
         else list_ex (\<lambda>special. includes_str base special) specialFiles)"

definition binaryExtensions :: "string list" where
  "binaryExtensions =
    [''.png'', ''.jpg'', ''.jpeg'', ''.gif'', ''.svg'', ''.ico'', ''.webp'',
     ''.pdf'', ''.doc'', ''.docx'', ''.xls'', ''.xlsx'', ''.ppt'', ''.pptx'',
     ''.zip'', ''.tar'', ''.gz'', ''.rar'', ''.7z'',
     ''.exe'', ''.dll'', ''.so'', ''.dylib'',
     ''.bin'', ''.dat'', ''.db'', ''.sqlite'',
     ''.mp3'', ''.mp4'', ''.avi'', ''.mov'', ''.mkv'',
     ''.ttf'', ''.otf'', ''.woff'', ''.woff2'',
     ''.jar'', ''.war'', ''.ear'',
     ''.min.js'', ''.bundle.js'']"

definition isBinaryFile :: "string \<Rightarrow> bool" where
  "isBinaryFile fname = (toLowerCase (extname fname) \<in> set binaryExtensions)"

text \<open>
  \<open>shouldReviewFile(file)\<close>. The glob matcher \<open>minimatch(filename, pattern,
  {matchBase: true})\<close> is an external library; it is the parameter \<open>mm\<close>.
\<close>

definition shouldReviewFile ::
  "(string \<Rightarrow> string \<Rightarrow> bool) \<Rightarrow> Config \<Rightarrow> 'a ChangedFile_scheme \<Rightarrow> bool" where
  "shouldReviewFile mm cfg file =
     (if status file = ''removed'' then False
      else if isBinaryFile (filename file) then False
      else if list_ex (\<lambda>pattern. mm (filename file) pattern) (excludePatterns cfg) then False
      else if changes file > 1000 then False
      else isCodeFile (filename file))"

definition languagePriorities :: "(string \<times> int) list" where
  "languagePriorities =
    [(''javascript'', 15), (''typescript'', 15), (''python'', 12), (''java'', 12),
     (''csharp'', 12), (''go'', 10), (''rust'', 10), (''php'', 8), (''ruby'', 8)]"

definition calculateReviewPriority :: "'a ChangedFile_scheme \<Rightarrow> int" where
  "calculateReviewPriority file =
     (let fname = toLowerCase (filename file);
          p1 = (if includes_str fname ''src/'' \<or> includes_str fname ''lib/'' then 20 else 0);
          p2 = (if includes_str fname ''test'' \<or> includes_str fname ''spec'' then 15 else 0);
          p3 = (if includes_str fname ''config'' \<or> includes_str fname ''package.json''
                then 10 else 0);
          p4 = (if includes_str fname ''auth'' \<or> includes_str fname ''security''
                   \<or> includes_str fname ''login'' then 25 else 0);
          p5 = (case map_of languagePriorities (detectLanguage (filename file)) of
                  Some v \<Rightarrow> v | None \<Rightarrow> 5);
          p6 = (if changes file > 100 then 10 else if changes file > 50 then 5 else 0)
      in p1 + p2 + p3 + p4 + p5 + p6)"

text \<open>\<open>Array.prototype.slice(0, k)\<close>: a negative \<open>k\<close> counts from the end.\<close>

definition slice0 :: "int \<Rightarrow> 'a list \<Rightarrow> 'a list" where
  "slice0 k xs = (if k < 0 then take (nat (int (length xs) + k)) xs else take (nat k) xs)"

definition annotate :: "ChangedFile \<Rightarrow> ReviewCandidate" where
  "annotate file =
     ChangedFile.extend file
       (ReviewCandidate.fields (detectLanguage (filename file))
          (calculateReviewPriority file))"

text \<open>\<open>sort((a, b) => b.reviewPriority - a.reviewPriority)\<close>: a stable sort, highest
  priority first.\<close>

definition sortByPriority :: "ReviewCandidate list \<Rightarrow> ReviewCandidate list" where
  "sortByPriority cs = sort_key (\<lambda>c. - reviewPriority c) cs"

text \<open>\<open>filterFiles(files)\<close>: filter, slice, map, sort, in the order of the source.\<close>

definition filterFiles ::
  "(string \<Rightarrow> string \<Rightarrow> bool) \<Rightarrow> Config \<Rightarrow> ChangedFile list \<Rightarrow> ReviewCandidate list" where
  "filterFiles mm cfg files =
     sortByPriority
       (map annotate
          (slice0 (maxFiles cfg) (filter (shouldReviewFile mm cfg) files)))"

text \<open>
  \<open>parseDiff(patch)\<close>. Added and context records carry \<open>{line, content}\<close>; removed
  records carry \<open>{content}\<close> only.
\<close>

record NumberedLine =
  line :: nat
  content :: string

record RemovedLine =
  removed_content :: string

record ParsedDiff =
  added :: "NumberedLine list"
  removed :: "RemovedLine list"
  ctxt :: "NumberedLine list"

definition newline :: char where
  "newline = CHR 0x0A"

definition isDigit :: "char \<Rightarrow> bool" where
  "isDigit c = (c \<in> set ''0123456789'')"

definition digit_val :: "char \<Rightarrow> nat" where
  "digit_val c = (case map_of (zip ''0123456789'' [0, 1, 2, 3, 4, 5, 6, 7, 8, 9]) c of
                    Some d \<Rightarrow> d | None \<Rightarrow> 0)"

text \<open>\<open>parseInt\<close> on a non-empty run of decimal digits (exact integers).\<close>

definition parseInt :: "string \<Rightarrow> nat" where
  "parseInt ds = foldl (\<lambda>a c. 10 * a + digit_val c) 0 ds"

definition opt_comma :: "string \<Rightarrow> string" where
  "opt_comma s = (case s of [] \<Rightarrow> [] | c # r \<Rightarrow> if c = CHR '','' then r else c # r)"

text \<open>
  The regular expression \<open>/@@ -(\d+),?\d* \+(\d+),?\d* @@/\<close> tried at the head of a
  string; the result is the second group. Each digit run is followed by a non-digit
  in any match, so the greedy runs are the only ones that can succeed.
\<close>

definition hunk_at :: "string \<Rightarrow> string option" where
  "hunk_at s =
     (if \<not> startsWith s ''@@ -'' then None
      else let r1 = drop 4 s; d1 = takeWhile isDigit r1 in
        if d1 = [] then None
        else let r2 = dropWhile isDigit (opt_comma (dropWhile isDigit r1)) in
          if \<not> startsWith r2 '' +'' then None
          else let r3 = drop 2 r2; d2 = takeWhile isDigit r3 in
            if d2 = [] then None
            else let r4 = dropWhile isDigit (opt_comma (dropWhile isDigit r3)) in
              if startsWith r4 '' @@'' then Some d2 else None)"

text \<open>\<open>line.match(re)\<close>: the leftmost position at which the expression matches.\<close>

fun hunk_match :: "string \<Rightarrow> string option" where
  "hunk_match [] = hunk_at []"
| "hunk_match (c # cs) =
     (case hunk_at (c # cs) of Some g \<Rightarrow> Some g | None \<Rightarrow> hunk_match cs)"

definition is_added :: "string \<Rightarrow> bool" where
  "is_added l = (startsWith l ''+'' \<and> \<not> startsWith l ''+++'')"

definition is_removed :: "string \<Rightarrow> bool" where
  "is_removed l = (startsWith l ''-'' \<and> \<not> startsWith l ''---'')"

definition is_context :: "string \<Rightarrow> bool" where
  "is_context l = startsWith l '' ''"

text \<open>One iteration of the loop over the lines; the state is \<open>currentLine\<close> and the
  three arrays.\<close>

definition parseDiff_step :: "nat \<times> ParsedDiff \<Rightarrow> string \<Rightarrow> nat \<times> ParsedDiff" where
  "parseDiff_step st l =
     (case st of (currentLine, d) \<Rightarrow>
        if startsWith l ''@@'' then
          (case hunk_match l of
             Some g \<Rightarrow> (parseInt g, d)
           | None \<Rightarrow> (currentLine, d))
        else if is_added l then
          (currentLine + 1,
           d\<lparr>added := added d @ [\<lparr>line = currentLine, content = drop 1 l\<rparr>]\<rparr>)
        else if is_removed l then
          (currentLine, d\<lparr>removed := removed d @ [\<lparr>removed_content = drop 1 l\<rparr>]\<rparr>)
        else if is_context l then
          (currentLine + 1,
           d\<lparr>ctxt := ctxt d @ [\<lparr>line = currentLine, content = drop 1 l\<rparr>]\<rparr>)
        else (currentLine, d))"

definition empty_diff :: ParsedDiff where
  "empty_diff = \<lparr>added = [], removed = [], ctxt = []\<rparr>"

definition parseDiff :: "string \<Rightarrow> ParsedDiff" where
  "parseDiff p =
     (if p = [] then empty_diff
      else snd (foldl parseDiff_step (0, empty_diff) (split_on newline p)))"

section \<open>ReviewEngine\<close>

record Issue =
  issue_type :: string
  issue_line :: "int option"
  message :: string
  suggestion :: "string option"
  category :: string

record Review =
  review_filename :: string
  summary :: string
  issues :: "Issue list"
  score :: int

record InlineComment =
  path :: string
  comment_line :: int
  body :: string

record ReviewStats =
  averageScore :: int
  errorCount :: nat
  warningCount :: nat
  suggestionCount :: nat
  securityIssues :: nat
  performanceIssues :: nat

text \<open>Decimal rendering of a number inside a template string.\<close>

definition digit_char :: "nat \<Rightarrow> char" where
  "digit_char d = ''0123456789'' ! (d mod 10)"

fun show_nat :: "nat \<Rightarrow> string" where
  "show_nat n = (if n < 10 then [digit_char n] else show_nat (n div 10) @ [digit_char n])"

definition show_int :: "int \<Rightarrow> string" where
  "show_int i = (if i < 0 then CHR ''-'' # show_nat (nat (- i)) else show_nat (nat i))"

text \<open>The key \<open>`${file.filename}:${issue.line}`\<close>.\<close>

definition commentKey :: "string \<Rightarrow> int \<Rightarrow> string" where
  "commentKey fname l = fname @ '':'' @ show_int l"

text \<open>
  \<open>createReviewComments(file, review, commitSha, existingCommentPaths)\<close>. The body
  renderer \<open>formatIssueComment\<close> is the parameter \<open>fmt\<close>; \<open>commitSha\<close> is unused by the
  source. An absent line is \<open>None\<close>; the test \<open>issue.line && issue.line > 0\<close> holds for
  the positive numbers.
\<close>

fun createReviewComments ::
  "(Issue \<Rightarrow> string) \<Rightarrow> string \<Rightarrow> Issue list \<Rightarrow> string set \<Rightarrow> InlineComment list" where
  "createReviewComments fmt fname [] existing = []"
| "createReviewComments fmt fname (issue # rest) existing =
     (case issue_line issue of
        None \<Rightarrow> createReviewComments fmt fname rest existing
      | Some l \<Rightarrow>
          if l > 0 then
            (if commentKey fname l \<in> existing
             then createReviewComments fmt fname rest existing
             else \<lparr>path = fname, comment_line = l, body = fmt issue\<rparr>
                    # createReviewComments fmt fname rest existing)
          else createReviewComments fmt fname rest existing)"

text \<open>
  The comment collection of \<open>performReview\<close>: for each file, in order, the comments of
  its review are appended; a file whose review threw (\<open>None\<close>) adds none.
\<close>

definition reviewComments ::
  "(Issue \<Rightarrow> string) \<Rightarrow> string set \<Rightarrow> (string \<times> Review option) list \<Rightarrow> InlineComment list" where
  "reviewComments fmt existing frs =
     concat (map (\<lambda>(fname, r).
                    case r of
                      None \<Rightarrow> []
                    | Some review \<Rightarrow> createReviewComments fmt fname (issues review) existing)
                 frs)"

text \<open>\<open>Math.round\<close>: the nearest integer, a tie going up.\<close>

definition Math_round :: "rat \<Rightarrow> int" where
  "Math_round x = \<lfloor>x + 1 / 2\<rfloor>"

definition count_where :: "(Issue \<Rightarrow> bool) \<Rightarrow> Review list \<Rightarrow> nat" where
  "count_where P reviews = length (filter P (concat (map issues reviews)))"

definition calculateReviewStats :: "Review list \<Rightarrow> ReviewStats" where
  "calculateReviewStats reviews =
     (let totalReviews = length reviews;
          totalScore = foldl (\<lambda>sum review. sum + score review) 0 reviews
      in \<lparr>averageScore =
             (if totalReviews > 0
              then Math_round (of_int totalScore / of_int (int totalReviews))
              else 0),
          errorCount = count_where (\<lambda>i. issue_type i = ''error'') reviews,
          warningCount = count_where (\<lambda>i. issue_type i = ''warning'') reviews,
          suggestionCount = count_where (\<lambda>i. issue_type i = ''suggestion'') reviews,
          securityIssues = count_where (\<lambda>i. category i = ''security'') reviews,
          performanceIssues = count_where (\<lambda>i. category i = ''performance'') reviews\<rparr>)"

text \<open>The two labels computed at the head of \<open>formatReviewComment\<close>.\<close>

definition risk :: "int \<Rightarrow> string" where
  "risk avgScore =
     (if avgScore \<ge> 75 then ''Low'' else if avgScore \<ge> 60 then ''Medium'' else ''High'')"

definition recommendation :: "int \<Rightarrow> string" where
  "recommendation avgScore =
     (if avgScore \<ge> 90 then ''Approve''
      else if avgScore \<ge> 75 then ''Approve with Comments''
      else if avgScore \<ge> 60 then ''Request Changes''
      else ''Reject'')"

text \<open>The executive-summary line of the report.\<close>

definition executiveSummary :: "Review list \<Rightarrow> string" where
  "executiveSummary reviews =
     (let avgScore = averageScore (calculateReviewStats reviews) in
      ''**Score:** '' @ show_int avgScore @ ''/100 | **Risk:** '' @ risk avgScore
        @ '' | **Recommendation:** '' @ recommendation avgScore @ [newline, newline])"

section \<open>Specification-level notions used in the statements\<close>

text \<open>An issue gets an inline comment when it has a positive line whose key is new.\<close>

definition commentable :: "string \<Rightarrow> string set \<Rightarrow> Issue \<Rightarrow> bool" where
  "commentable fname existing issue =
     (case issue_line issue of
        None \<Rightarrow> False
      | Some l \<Rightarrow> 0 < l \<and> commentKey fname l \<notin> existing)"

definition keyOf :: "InlineComment \<Rightarrow> string" where
  "keyOf c = commentKey (path c) (comment_line c)"

text \<open>
  The line number that a line of a patch would get, from the lines before it (most recent
  first): the new-start of the most recent matching hunk header, or 0 when there is
  none, plus the number of added and context lines after that header.
\<close>

fun since_header :: "string list \<Rightarrow> nat" where
  "since_header [] = 0"
| "since_header (l # earlier) =
     (if startsWith l ''@@'' then
        (case hunk_match l of Some g \<Rightarrow> parseInt g | None \<Rightarrow> since_header earlier)
      else if is_added l \<or> is_context l then since_header earlier + 1
      else since_header earlier)"

text \<open>The numbered records of the lines satisfying \<open>P\<close>; the lines are given most
  recent first, the records come out in patch order.\<close>

fun numbered_rev :: "(string \<Rightarrow> bool) \<Rightarrow> string list \<Rightarrow> NumberedLine list" where
  "numbered_rev P [] = []"
| "numbered_rev P (l # earlier) =
     numbered_rev P earlier
       @ (if P l then [\<lparr>line = since_header earlier, content = drop 1 l\<rparr>] else [])"

text \<open>No matching hunk header moves the cursor backwards (lines most recent first).\<close>

fun cursor_monotone :: "string list \<Rightarrow> bool" where
  "cursor_monotone [] = True"
| "cursor_monotone (l # earlier) =
     (cursor_monotone earlier \<and>
      (if startsWith l ''@@'' then
         (case hunk_match l of Some g \<Rightarrow> since_header earlier \<le> parseInt g | None \<Rightarrow> True)
       else True))"

section \<open>Sample inputs\<close>

definition mkfile :: "string \<Rightarrow> string \<Rightarrow> nat \<Rightarrow> ChangedFile" where
  "mkfile f s c = \<lparr>filename = f, status = s, changes = c, patch = None\<rparr>"

text \<open>A matcher for runs without exclude patterns.\<close>

definition no_match :: "string \<Rightarrow> string \<Rightarrow> bool" where
  "no_match f p = False"

definition cfg10 :: Config where
  "cfg10 = \<lparr>maxFiles = 10, excludePatterns = []\<rparr>"

definition cfg1 :: Config where
  "cfg1 = \<lparr>maxFiles = 1, excludePatterns = []\<rparr>"

definition two_files :: "ChangedFile list" where
  "two_files = [mkfile ''README.md'' ''modified'' 3, mkfile ''src/auth.js'' ''modified'' 40]"

definition scored :: "int \<Rightarrow> Review" where
  "scored s = \<lparr>review_filename = ''a.js'', summary = ''ok'', issues = [], score = s\<rparr>"

definition hunk_header_1_3_1_4 :: string where
  "hunk_header_1_3_1_4 = ''@@ -1,3 +1,4 @@''"

text \<open>The header, a context line, an added line, a removed line, a context line.\<close>

definition four_line_patch :: "string \<Rightarrow> string \<Rightarrow> string \<Rightarrow> string \<Rightarrow> string" where
  "four_line_patch c1 a r c2 =
     hunk_header_1_3_1_4 @ [newline] @ '' '' @ c1 @ [newline] @ ''+'' @ a @ [newline]
       @ ''-'' @ r @ [newline] @ '' '' @ c2"

definition sample_patch :: string where
  "sample_patch =
     four_line_patch ''function hello() {'' ''  return 1;'' ''  return 0;'' ''}''"

definition backward_hunks_patch :: string where
  "backward_hunks_patch =
     ''@@ -1 +10 @@'' @ [newline] @ ''+a'' @ [newline] @ ''@@ -1 +2 @@'' @ [newline] @ ''+b''"

definition two_hunks_patch :: string where
  "two_hunks_patch =
     ''@@ -1,2 +1,3 @@'' @ [newline] @ '' a'' @ [newline] @ ''+b'' @ [newline]
       @ ''@@ -10,2 +11,2 @@'' @ [newline] @ ''-c'' @ [newline] @ ''+d'' @ [newline] @ '' e''"

definition mkissue :: "int option \<Rightarrow> string \<Rightarrow> Issue" where
  "mkissue l m =
     \<lparr>issue_type = ''warning'', issue_line = l, message = m, suggestion = None,
      category = ''style''\<rparr>"

definition sample_issues :: "Issue list" where
  "sample_issues =
     [mkissue (Some 3) ''unused variable'', mkissue None ''no tests'',
      mkissue (Some 7) ''long line'', mkissue (Some 0) ''file header'']"

definition sample_reviews :: "(string \<times> Review option) list" where
  "sample_reviews =
     [(''src/app.js'',
       Some \<lparr>review_filename = ''src/app.js'', summary = ''ok'', issues = sample_issues,
             score = 80\<rparr>),
      (''src/broken.js'', None)]"

section \<open>Report labels and the average score\<close>

lemma foldl_score_sum:
  "foldl (\<lambda>sum review. sum + score review) a rs = a + sum_list (map score rs)"
  by (induction rs arbitrary: a) simp_all

lemma Math_round_round: "Math_round x = round x"
  by (simp add: Math_round_def round_def)

lemma averageScore_eq:
  "averageScore (calculateReviewStats rs) =
     (if rs = [] then 0
      else round (of_int (sum_list (map score rs)) / of_int (int (length rs)) :: rat))"
  by (simp add: calculateReviewStats_def Let_def foldl_score_sum Math_round_round)

text \<open>Rounding a quotient of integers half-up, in integer arithmetic.\<close>

lemma round_half_up_div:
  assumes "0 < n"
  shows "round (of_int a / of_int n :: rat) = (2 * a + n) div (2 * n)"
proof -
  have "(of_int a / of_int n :: rat) + 1 / 2 = of_int (2 * a + n) / of_int (2 * n)"
    using assms by (simp add: field_simps)
  then show ?thesis
    by (simp only: round_def floor_divide_of_int_eq)
qed

text \<open>
  C3. The recommendation is a step function of the average score with inclusive lower
  bounds at 90, 75 and 60: every integer score (in particular every score from 0 to 100)
  gets exactly one of the four labels, \<open>Approve\<close> exactly from 90 up,
  \<open>Approve with Comments\<close> exactly on 75..89, \<open>Request Changes\<close> exactly on 60..74 and
  \<open>Reject\<close> exactly below 60.
\<close>

theorem recommendation_step:
  "(recommendation s = ''Approve'') = (90 \<le> s)
   \<and> (recommendation s = ''Approve with Comments'') = (75 \<le> s \<and> s < 90)
   \<and> (recommendation s = ''Request Changes'') = (60 \<le> s \<and> s < 75)
   \<and> (recommendation s = ''Reject'') = (s < 60)
   \<and> recommendation s \<in>
       {''Approve'', ''Approve with Comments'', ''Request Changes'', ''Reject''}"
  by (simp add: recommendation_def)

text \<open>
  C4, as stated, fails: a score in 75..89 does not get a label of its own between low
  and medium; the score 80 is labelled \<open>Low\<close>, the same label as the score 95.
\<close>

theorem risk_80_is_low:
  "risk 80 = ''Low'' \<and> risk 80 = risk 95"
  by (simp add: risk_def)

text \<open>
  C4, amended. The risk label is a three-way step function with inclusive lower bounds at
  75 and 60: \<open>Low\<close> exactly from 75 up, \<open>Medium\<close> exactly on 60..74, \<open>High\<close> exactly
  below 60.
\<close>

theorem risk_step:
  "(risk s = ''Low'') = (75 \<le> s)
   \<and> (risk s = ''Medium'') = (60 \<le> s \<and> s < 75)
   \<and> (risk s = ''High'') = (s < 60)"
  by (simp add: risk_def)

text \<open>
  C5. The average score is 0 for no findings and otherwise the mean of the scores rounded
  to the nearest integer, a tie going up (\<open>round x = \<lfloor>x + 1/2\<rfloor>\<close>); the scores 95 and 40
  give 68, the recommendation \<open>Request Changes\<close> and the risk \<open>Medium\<close>.
\<close>

theorem averageScore_round_half_up:
  "averageScore (calculateReviewStats rs) =
     (if rs = [] then 0
      else round (of_int (sum_list (map score rs)) / of_int (int (length rs)) :: rat))
   \<and> averageScore (calculateReviewStats [scored 95, scored 40]) = 68
   \<and> recommendation (averageScore (calculateReviewStats [scored 95, scored 40]))
       = ''Request Changes''
   \<and> risk (averageScore (calculateReviewStats [scored 95, scored 40])) = ''Medium''"
proof -
  have ex: "averageScore (calculateReviewStats [scored 95, scored 40]) = 68"
    by (simp add: calculateReviewStats_def scored_def Math_round_def)
  show ?thesis
    unfolding ex by (simp add: averageScore_eq recommendation_def risk_def)
qed

section \<open>Selection of the files\<close>

lemma language_bonus_range:
  "5 \<le> (case map_of languagePriorities l of Some v \<Rightarrow> v | None \<Rightarrow> 5)
   \<and> (case map_of languagePriorities l of Some v \<Rightarrow> v | None \<Rightarrow> 5) \<le> 15"
proof (cases "map_of languagePriorities l")
  case None
  then show ?thesis by simp
next
  case (Some v)
  then have "(l, v) \<in> set languagePriorities" by (rule map_of_SomeD)
  then have "8 \<le> v \<and> v \<le> 15" by (auto simp: languagePriorities_def)
  with Some show ?thesis by simp
qed

lemma calculateReviewPriority_range:
  "5 \<le> calculateReviewPriority file \<and> calculateReviewPriority file \<le> 95"
  using language_bonus_range [of "detectLanguage (filename file)"]
  by (simp add: calculateReviewPriority_def Let_def)

lemma reviewPriority_annotate [simp]:
  "reviewPriority (annotate file) = calculateReviewPriority file"
  by (simp add: annotate_def ChangedFile.defs ReviewCandidate.defs)

lemma language_annotate [simp]:
  "language (annotate file) = detectLanguage (filename file)"
  by (simp add: annotate_def ChangedFile.defs ReviewCandidate.defs)

lemma filename_annotate [simp]:
  "filename (annotate file) = filename file"
  by (simp add: annotate_def ChangedFile.defs ReviewCandidate.defs)

lemma set_filterFiles:
  "set (filterFiles mm cfg files) \<subseteq> annotate ` {f \<in> set files. shouldReviewFile mm cfg f}"
proof -
  have "set (slice0 k xs) \<subseteq> set xs" for k and xs :: "ChangedFile list"
    by (auto simp: slice0_def dest: in_set_takeD)
  then show ?thesis
    by (fastforce simp: filterFiles_def sortByPriority_def)
qed

lemma sorted_desc_sortByPriority:
  "sorted_wrt (\<lambda>a b. reviewPriority b \<le> reviewPriority a) (sortByPriority cs)"
proof -
  have "sorted (map (\<lambda>c. - reviewPriority c) (sortByPriority cs))"
    unfolding sortByPriority_def by (rule sorted_sort_key)
  then show ?thesis by (simp add: sorted_wrt_map)
qed

lemma slice0_nonneg: "0 \<le> k \<Longrightarrow> slice0 k xs = take (nat k) xs"
  by (simp add: slice0_def)

text \<open>
  C1, as stated, fails: the limit is applied before the sort. With \<open>maxFiles = 1\<close> and
  the files \<open>README.md\<close> (priority 5) and \<open>src/auth.js\<close> (eligible, priority 60), in this
  order, the output is \<open>README.md\<close> alone: it does not contain the highest-priority
  eligible file.
\<close>

theorem filterFiles_drops_higher_priority:
  "shouldReviewFile no_match cfg1 (mkfile ''src/auth.js'' ''modified'' 40)
   \<and> calculateReviewPriority (mkfile ''src/auth.js'' ''modified'' 40) = 60
   \<and> map filename (filterFiles no_match cfg1 two_files) = [''README.md'']
   \<and> map reviewPriority (filterFiles no_match cfg1 two_files) = [5]"
  by code_simp

text \<open>
  C1, amended. For every file list and every configuration with \<open>maxFiles \<ge> 0\<close>,
  \<open>filterFiles\<close> keeps the first \<open>maxFiles\<close> eligible files in input order and then sorts
  these by descending priority: the output is a permutation of the annotated first
  \<open>maxFiles\<close> eligible files, it is sorted by non-increasing priority, its length is the
  minimum of \<open>maxFiles\<close> and the number of eligible files, and candidates of equal priority
  keep their input order.
\<close>

theorem filterFiles_truncate_then_sort:
  assumes "0 \<le> maxFiles cfg"
  shows "mset (filterFiles mm cfg files) =
           mset (map annotate
                  (take (nat (maxFiles cfg)) (filter (shouldReviewFile mm cfg) files)))
         \<and> sorted_wrt (\<lambda>a b. reviewPriority b \<le> reviewPriority a) (filterFiles mm cfg files)
         \<and> length (filterFiles mm cfg files) =
             min (nat (maxFiles cfg)) (length (filter (shouldReviewFile mm cfg) files))
         \<and> filter (\<lambda>c. reviewPriority c = k) (filterFiles mm cfg files) =
             filter (\<lambda>c. reviewPriority c = k)
               (map annotate
                  (take (nat (maxFiles cfg)) (filter (shouldReviewFile mm cfg) files)))"
proof -
  let ?kept =
    "map annotate (take (nat (maxFiles cfg)) (filter (shouldReviewFile mm cfg) files))"
  have out: "filterFiles mm cfg files = sortByPriority ?kept"
    using assms by (simp add: filterFiles_def slice0_nonneg)
  have stable: "filter (\<lambda>c. reviewPriority c = k) (sortByPriority ?kept) =
                filter (\<lambda>c. reviewPriority c = k) ?kept"
    using sort_key_stable [of "\<lambda>c. - reviewPriority c" "- k" ?kept]
    by (simp add: sortByPriority_def)
  show ?thesis
    unfolding out
    using sorted_desc_sortByPriority [of ?kept] stable
    by (simp add: sortByPriority_def min.commute)
qed

theorem filterFiles_truncate_then_sort_witness:
  "0 \<le> maxFiles cfg1
   \<and> filterFiles no_match cfg1 two_files = [annotate (mkfile ''README.md'' ''modified'' 3)]
   \<and> length (filterFiles no_match cfg1 two_files) =
       min (nat (maxFiles cfg1)) (length (filter (shouldReviewFile no_match cfg1) two_files))"
proof -
  have h: "0 \<le> maxFiles cfg1" by (simp add: cfg1_def)
  have e: "filterFiles no_match cfg1 two_files = [annotate (mkfile ''README.md'' ''modified'' 3)]"
    by code_simp
  from filterFiles_truncate_then_sort [OF h, of no_match two_files] h e show ?thesis
    by simp
qed

text \<open>
  C10. Every candidate returned by \<open>filterFiles\<close> has a priority from 5 to 95: the
  language bonus is at least 5, and the bonuses add up to at most
  20 + 15 + 10 + 25 + 15 + 10.
\<close>

theorem filterFiles_priority_range:
  "c \<in> set (filterFiles mm cfg files) \<Longrightarrow> 5 \<le> reviewPriority c \<and> reviewPriority c \<le> 95"
  using set_filterFiles [of mm cfg files] calculateReviewPriority_range by fastforce

theorem filterFiles_priority_range_witness:
  "annotate (mkfile ''src/auth.js'' ''modified'' 40) \<in> set (filterFiles no_match cfg10 two_files)
   \<and> 5 \<le> reviewPriority (annotate (mkfile ''src/auth.js'' ''modified'' 40))
   \<and> reviewPriority (annotate (mkfile ''src/auth.js'' ''modified'' 40)) \<le> 95"
proof -
  have m: "annotate (mkfile ''src/auth.js'' ''modified'' 40)
             \<in> set (filterFiles no_match cfg10 two_files)"
    by code_simp
  from filterFiles_priority_range [OF m] m show ?thesis by simp
qed

text \<open>Both ends of the range are reached.\<close>

lemma priority_range_attained:
  "map reviewPriority
     (filterFiles no_match cfg10
        [mkfile ''README.md'' ''modified'' 3,
         mkfile ''src/auth/config.test.js'' ''added'' 101]) = [95, 5]"
  by code_simp

section \<open>Binary files and language detection\<close>

lemma lower_char_eq_dot: "(lower_char c = dot) = (c = dot)"
  by (auto simp: lower_char_def upper_letters_def lower_letters_def dot_def
      split: option.splits if_splits)

lemma extname_one_dot: "dot \<notin> set (tl (extname p))"
proof -
  have "dot \<notin> set (takeWhile (\<lambda>c. c \<noteq> dot) xs)" for xs
    by (auto dest: set_takeWhileD)
  then show ?thesis
    by (simp add: extname_def Let_def)
qed

lemma lowered_extname_one_dot: "dot \<notin> set (tl (toLowerCase (extname p)))"
proof -
  have "tl (toLowerCase (extname p)) = map lower_char (tl (extname p))"
    by (simp add: toLowerCase_def map_tl)
  then show ?thesis
    using extname_one_dot [of p] lower_char_eq_dot by (metis imageE set_map)
qed

text \<open>An extension has one dot, so the two entries with two dots match no path.\<close>

lemma bundle_entries_unreachable:
  "toLowerCase (extname p) \<noteq> ''.min.js'' \<and> toLowerCase (extname p) \<noteq> ''.bundle.js''"
proof -
  have "dot \<in> set (tl ''.min.js'')" "dot \<in> set (tl ''.bundle.js'')"
    by (simp_all add: dot_def)
  then show ?thesis using lowered_extname_one_dot [of p] by metis
qed

text \<open>
  C7 on the code: \<open>dist/app.min.js\<close> and \<open>vendor.bundle.js\<close> are not classified as
  binary (their extension is \<open>.js\<close>), and without exclude patterns the minified file is
  selected.
\<close>

theorem minified_not_binary:
  "\<not> isBinaryFile ''dist/app.min.js''
   \<and> \<not> isBinaryFile ''vendor.bundle.js''
   \<and> map filename (filterFiles no_match cfg10 [mkfile ''dist/app.min.js'' ''modified'' 12])
       = [''dist/app.min.js'']"
  by code_simp

text \<open>The special names are recognised when they are the whole argument.\<close>

lemma detectLanguage_whole_name:
  "detectLanguage ''Dockerfile'' = ''dockerfile''
   \<and> detectLanguage ''dockerfile'' = ''dockerfile''
   \<and> detectLanguage ''DOCKERFILE'' = ''dockerfile''
   \<and> detectLanguage ''Makefile'' = ''makefile''
   \<and> detectLanguage ''unknown.xyz'' = ''text''"
  by code_simp

text \<open>An extension of the table decides the language; any other extension gives
  \<open>text\<close>, unless the whole argument is one of the two special names.\<close>

lemma set_basename: "set (basename p) \<subseteq> set p"
  by (auto simp: basename_def dest!: set_takeWhileD set_dropWhileD)

lemma extname_no_dot: "dot \<notin> set p \<Longrightarrow> extname p = []"
  using set_basename [of p] by (auto simp: extname_def Let_def)

lemma special_name_no_ext:
  assumes "toLowerCase p = ''dockerfile'' \<or> toLowerCase p = ''makefile''"
  shows "extname p = []"
proof -
  have "dot \<notin> set (toLowerCase p)"
    using assms by (auto simp: dot_def)
  then have "dot \<notin> set p"
    using lower_char_eq_dot by (force simp: toLowerCase_def)
  then show ?thesis by (rule extname_no_dot)
qed

lemma detectLanguage_table:
  assumes "map_of languageMap (toLowerCase (extname p)) = Some l"
  shows "detectLanguage p = l"
proof -
  have "map_of languageMap [] = None"
    by (simp add: languageMap_def)
  then have "extname p \<noteq> []"
    using assms by (auto simp: toLowerCase_def)
  then have "toLowerCase p \<noteq> ''dockerfile''" "toLowerCase p \<noteq> ''makefile''"
    using special_name_no_ext [of p] by auto
  then show ?thesis using assms by (simp add: detectLanguage_def)
qed

lemma detectLanguage_unknown:
  assumes "map_of languageMap (toLowerCase (extname p)) = None"
    and "toLowerCase p \<noteq> ''dockerfile''" and "toLowerCase p \<noteq> ''makefile''"
  shows "detectLanguage p = ''text''"
  using assms by (simp add: detectLanguage_def)

text \<open>
  C8 on the code: a path with a directory whose basename is \<open>Dockerfile\<close> or \<open>Makefile\<close>
  is accepted as a code file by its basename, and its language is \<open>text\<close>.
\<close>

theorem nested_dockerfile_is_text:
  "toLowerCase (basename ''docker/Dockerfile'') = ''dockerfile''
   \<and> isCodeFile ''docker/Dockerfile''
   \<and> detectLanguage ''docker/Dockerfile'' = ''text''
   \<and> toLowerCase (basename ''tools/Makefile'') = ''makefile''
   \<and> detectLanguage ''tools/Makefile'' = ''text''"
  by code_simp

section \<open>Inline comments\<close>

lemma createReviewComments_filter:
  "createReviewComments fmt fname is existing =
     map (\<lambda>i. \<lparr>path = fname, comment_line = the (issue_line i), body = fmt i\<rparr>)
       (filter (commentable fname existing) is)"
  by (induction "is") (simp_all add: commentable_def split: option.splits)

lemma createReviewComments_empty_iff:
  "createReviewComments fmt fname is existing = [] \<longleftrightarrow>
     (\<forall>i \<in> set is. \<not> commentable fname existing i)"
  by (simp add: createReviewComments_filter filter_empty_conv)

lemma emitted_key:
  assumes "i \<in> set is" and "commentable fname existing i"
  shows "commentKey fname (the (issue_line i))
           \<in> keyOf ` set (createReviewComments fmt fname is existing)"
proof -
  have "\<lparr>path = fname, comment_line = the (issue_line i), body = fmt i\<rparr>
          \<in> set (createReviewComments fmt fname is existing)"
    using assms by (auto simp: createReviewComments_filter)
  then have "keyOf \<lparr>path = fname, comment_line = the (issue_line i), body = fmt i\<rparr>
          \<in> keyOf ` set (createReviewComments fmt fname is existing)"
    by (rule imageI)
  then show ?thesis by (simp add: keyOf_def)
qed

lemma second_run_file:
  assumes sub: "existing \<subseteq> existing'"
    and keys: "keyOf ` set (createReviewComments fmt fname is existing) \<subseteq> existing'"
  shows "createReviewComments fmt' fname is existing' = []"
proof -
  have "\<not> commentable fname existing' i" if i: "i \<in> set is" for i
  proof (cases "issue_line i")
    case None
    then show ?thesis by (simp add: commentable_def)
  next
    case (Some l)
    show ?thesis
    proof (cases "0 < l \<and> commentKey fname l \<notin> existing")
      case True
      then have "commentable fname existing i" using Some by (simp add: commentable_def)
      from emitted_key [OF i this, of fmt] keys Some
      have "commentKey fname l \<in> existing'" by auto
      then show ?thesis using Some by (simp add: commentable_def)
    next
      case False
      then show ?thesis using Some sub by (auto simp: commentable_def)
    qed
  qed
  then show ?thesis by (simp add: createReviewComments_empty_iff)
qed

lemma set_reviewComments:
  "set (reviewComments fmt existing frs) =
     (\<Union>(fname, r) \<in> set frs. case r of None \<Rightarrow> {}
         | Some review \<Rightarrow> set (createReviewComments fmt fname (issues review) existing))"
  by (auto simp: reviewComments_def split: option.splits)

lemma reviewComments_second_run:
  assumes sub: "existing \<subseteq> existing'"
    and keys: "keyOf ` set (reviewComments fmt existing frs) \<subseteq> existing'"
  shows "reviewComments fmt' existing' frs = []"
proof -
  have "createReviewComments fmt' fname (issues review) existing' = []"
    if "(fname, Some review) \<in> set frs" for fname review
  proof (rule second_run_file [OF sub])
    have "set (createReviewComments fmt fname (issues review) existing)
            \<subseteq> set (reviewComments fmt existing frs)"
      using that by (force simp: set_reviewComments)
    then show "keyOf ` set (createReviewComments fmt fname (issues review) existing)
                 \<subseteq> existing'"
      using keys by blast
  qed
  then show ?thesis
    by (auto simp: reviewComments_def split: option.splits)
qed

text \<open>
  C6. For each file, the inline comments are exactly the records \<open>{path, line, body}\<close> of
  the issues, in order, whose line is a positive integer and whose key
  \<open>filename:line\<close> is not in the set of keys already commented. A second run on the same
  findings, with a key set that has grown by the keys of all comments emitted in the first
  run, produces no inline comment. An issue without a line never gives an inline comment:
  every comment carries the positive line of one of the issues.
\<close>

theorem inline_comments_idempotent:
  "createReviewComments fmt fname is existing =
     map (\<lambda>i. \<lparr>path = fname, comment_line = the (issue_line i), body = fmt i\<rparr>)
       (filter (commentable fname existing) is)
   \<and> (existing \<subseteq> existing' \<and> keyOf ` set (reviewComments fmt existing frs) \<subseteq> existing'
        \<longrightarrow> reviewComments fmt existing' frs = [])
   \<and> reviewComments fmt (existing \<union> keyOf ` set (reviewComments fmt existing frs)) frs = []
   \<and> (\<forall>i \<in> set is. issue_line i = None \<longrightarrow> \<not> commentable fname existing i)
   \<and> (\<forall>c \<in> set (createReviewComments fmt fname is existing).
         \<exists>i \<in> set is. issue_line i = Some (comment_line c) \<and> 0 < comment_line c)"
proof -
  have a: "reviewComments fmt (existing \<union> keyOf ` set (reviewComments fmt existing frs)) frs = []"
    by (rule reviewComments_second_run [of existing _ fmt frs]) auto
  have b: "\<forall>c \<in> set (createReviewComments fmt fname is existing).
         \<exists>i \<in> set is. issue_line i = Some (comment_line c) \<and> 0 < comment_line c"
    by (auto simp: createReviewComments_filter commentable_def split: option.splits)
  show ?thesis
    using a b reviewComments_second_run [of existing existing' fmt frs fmt]
    by (simp add: createReviewComments_filter commentable_def)
qed

theorem inline_comments_idempotent_witness:
  "reviewComments message {''src/app.js:7''} sample_reviews =
     [\<lparr>path = ''src/app.js'', comment_line = 3, body = ''unused variable''\<rparr>]
   \<and> {''src/app.js:7''} \<subseteq> {''src/app.js:7'', ''src/app.js:3''}
   \<and> keyOf ` set (reviewComments message {''src/app.js:7''} sample_reviews)
       \<subseteq> {''src/app.js:7'', ''src/app.js:3''}
   \<and> reviewComments message {''src/app.js:7'', ''src/app.js:3''} sample_reviews = []
   \<and> createReviewComments message ''src/app.js'' sample_issues {''src/app.js:7''} =
       [\<lparr>path = ''src/app.js'', comment_line = 3, body = ''unused variable''\<rparr>]"
proof -
  have r1: "reviewComments message {''src/app.js:7''} sample_reviews =
     [\<lparr>path = ''src/app.js'', comment_line = 3, body = ''unused variable''\<rparr>]"
    by code_simp
  have c1: "createReviewComments message ''src/app.js'' sample_issues {''src/app.js:7''} =
       [\<lparr>path = ''src/app.js'', comment_line = 3, body = ''unused variable''\<rparr>]"
    by code_simp
  have k: "keyOf ` set (reviewComments message {''src/app.js:7''} sample_reviews)
       \<subseteq> {''src/app.js:7'', ''src/app.js:3''}"
    unfolding r1 by code_simp
  have s: "{''src/app.js:7''} \<subseteq> {''src/app.js:7'', ''src/app.js:3''}"
    by simp
  from inline_comments_idempotent
    [of message "''src/app.js''" sample_issues "{''src/app.js:7''}"
        "{''src/app.js:7'', ''src/app.js:3''}" sample_reviews]
  have "reviewComments message {''src/app.js:7'', ''src/app.js:3''} sample_reviews = []"
    using s k by blast
  with r1 c1 k s show ?thesis by simp
qed

section \<open>Line numbers of a parsed patch\<close>

lemma first_char_exclusive:
  "is_added l \<Longrightarrow> \<not> startsWith l ''@@''"
  "is_context l \<Longrightarrow> \<not> startsWith l ''@@''"
  "is_removed l \<Longrightarrow> \<not> startsWith l ''@@''"
  "is_added l \<Longrightarrow> \<not> is_removed l"
  "is_added l \<Longrightarrow> \<not> is_context l"
  "is_removed l \<Longrightarrow> \<not> is_context l"
  by (cases l; simp add: is_added_def is_context_def is_removed_def startsWith_def)+

lemma parseDiff_step_cases:
  "parseDiff_step (cur, d) l =
     (if startsWith l ''@@'' then
        (case hunk_match l of Some g \<Rightarrow> (parseInt g, d) | None \<Rightarrow> (cur, d))
      else if is_added l then
        (cur + 1, d\<lparr>added := added d @ [\<lparr>line = cur, content = drop 1 l\<rparr>]\<rparr>)
      else if is_removed l then
        (cur, d\<lparr>removed := removed d @ [\<lparr>removed_content = drop 1 l\<rparr>]\<rparr>)
      else if is_context l then
        (cur + 1, d\<lparr>ctxt := ctxt d @ [\<lparr>line = cur, content = drop 1 l\<rparr>]\<rparr>)
      else (cur, d))"
  by (simp add: parseDiff_step_def)

text \<open>The loop, run on the lines \<open>rev r\<close>, computes the cursor and the records of the
  specification-level functions.\<close>

lemma foldl_parseDiff_step:
  "foldl parseDiff_step (0, empty_diff) (rev r) =
     (since_header r,
      \<lparr>added = numbered_rev is_added r,
       removed = map (\<lambda>l. \<lparr>removed_content = drop 1 l\<rparr>) (filter is_removed (rev r)),
       ctxt = numbered_rev is_context r\<rparr>)"
proof (induction r)
  case Nil
  then show ?case by (simp add: empty_diff_def)
next
  case (Cons l r)
  show ?case
    using first_char_exclusive [of l]
    by (auto simp: Cons.IH parseDiff_step_cases split: option.splits)
qed

lemma parseDiff_lines:
  "parseDiff p =
     \<lparr>added = numbered_rev is_added (rev (split_on newline p)),
      removed = map (\<lambda>l. \<lparr>removed_content = drop 1 l\<rparr>)
                  (filter is_removed (split_on newline p)),
      ctxt = numbered_rev is_context (rev (split_on newline p))\<rparr>"
proof (cases "p = []")
  case True
  then show ?thesis
    by (simp add: parseDiff_def empty_diff_def is_added_def is_removed_def is_context_def
        startsWith_def)
next
  case False
  then show ?thesis
    using foldl_parseDiff_step [of "rev (split_on newline p)"]
    by (simp add: parseDiff_def)
qed

lemma numbered_rev_below_cursor:
  assumes "cursor_monotone r" and "\<And>l. P l \<Longrightarrow> is_added l \<or> is_context l"
  shows "sorted (map line (numbered_rev P r)) \<and>
         (\<forall>x \<in> set (numbered_rev P r). line x < since_header r)"
  using assms(1)
proof (induction r)
  case Nil
  then show ?case by simp
next
  case (Cons l r)
  then have IH: "sorted (map line (numbered_rev P r))"
    "\<forall>x \<in> set (numbered_rev P r). line x < since_header r"
    by simp_all
  show ?case
  proof (cases "startsWith l ''@@''")
    case True
    then have "\<not> P l" using assms(2) [of l] first_char_exclusive(1,2) [of l] by blast
    then show ?thesis using True IH Cons.prems
      by (auto split: option.splits)
  next
    case False
    then show ?thesis using IH assms(2) [of l]
      by (auto simp: sorted_append less_Suc_eq dest: less_imp_le)
  qed
qed

text \<open>What comes before the most recent matching hunk header does not count.\<close>

lemma since_header_after_match:
  assumes "startsWith h ''@@''" and "hunk_match h = Some g"
  shows "since_header (later @ h # earlier) = since_header (later @ h # earlier')"
  using assms by (induction later) (simp_all split: option.splits)

lemma split_on_no_sep: "sep \<notin> set s \<Longrightarrow> split_on sep s = [s]"
  by (induction s) auto

lemma split_on_append:
  "sep \<notin> set s \<Longrightarrow> split_on sep (s @ sep # rest) = s # split_on sep rest"
  by (induction s) auto

lemma hunk_match_header: "hunk_match hunk_header_1_3_1_4 = Some ''1''"
  by code_simp

lemma parseInt_1: "parseInt ''1'' = 1"
  by code_simp

lemma header_no_newline: "newline \<notin> set hunk_header_1_3_1_4"
  by code_simp

lemma header_starts: "startsWith hunk_header_1_3_1_4 ''@@''"
  by code_simp

text \<open>
  C2, as stated, fails: for the header \<open>@@ -1,3 +1,4 @@\<close> the new-file start is 1 (4 is
  the length of the hunk), and the numbers of the sample patch are 1, 2, 3, not 4, 5, 6.
\<close>

theorem parseDiff_sample_not_from_4:
  "map line (ctxt (parseDiff sample_patch)) = [1, 3]
   \<and> map line (added (parseDiff sample_patch)) = [2]
   \<and> line (hd (ctxt (parseDiff sample_patch))) \<noteq> 4"
  by code_simp

text \<open>
  C2, amended. For a patch made of the hunk header \<open>@@ -1,3 +1,4 @@\<close>, one context line,
  one added line, one removed line and one context line, the numbers of the added and
  context records count up from 1, the new-file start of the header: the first context
  record gets 1, the added record 2, the second context record 3; the removed record has
  a content and no line number.
\<close>

theorem parseDiff_four_lines:
  assumes "newline \<notin> set c1" "newline \<notin> set a" "newline \<notin> set r" "newline \<notin> set c2"
    and "\<not> startsWith a ''++''" and "\<not> startsWith r ''--''"
  shows "parseDiff (four_line_patch c1 a r c2) =
           \<lparr>added = [\<lparr>line = 2, content = a\<rparr>],
            removed = [\<lparr>removed_content = r\<rparr>],
            ctxt = [\<lparr>line = 1, content = c1\<rparr>, \<lparr>line = 3, content = c2\<rparr>]\<rparr>"
proof -
  have nl: "newline \<noteq> CHR '' ''" "newline \<noteq> CHR ''+''" "newline \<noteq> CHR ''-''"
    by (simp_all add: newline_def)
  have lines: "split_on newline (four_line_patch c1 a r c2) =
      [hunk_header_1_3_1_4, CHR '' '' # c1, CHR ''+'' # a, CHR ''-'' # r, CHR '' '' # c2]"
    unfolding four_line_patch_def
    using assms(1-4) nl header_no_newline
      split_on_append [of newline hunk_header_1_3_1_4]
      split_on_append [of newline "CHR '' '' # c1"]
      split_on_append [of newline "CHR ''+'' # a"]
      split_on_append [of newline "CHR ''-'' # r"]
      split_on_no_sep [of newline "CHR '' '' # c2"]
    by simp
  have cls: "is_added (CHR ''+'' # a)" "is_removed (CHR ''-'' # r)"
    "is_context (CHR '' '' # c1)" "is_context (CHR '' '' # c2)"
    using assms(5,6)
    by (simp_all add: is_added_def is_removed_def is_context_def startsWith_def)
  have ncls: "\<not> is_added (CHR '' '' # c1)" "\<not> is_added (CHR '' '' # c2)"
    "\<not> is_added (CHR ''-'' # r)" "\<not> is_context (CHR ''+'' # a)"
    "\<not> is_context (CHR ''-'' # r)" "\<not> is_removed (CHR '' '' # c1)"
    "\<not> is_removed (CHR '' '' # c2)" "\<not> is_removed (CHR ''+'' # a)"
    "\<not> is_added hunk_header_1_3_1_4" "\<not> is_context hunk_header_1_3_1_4"
    "\<not> is_removed hunk_header_1_3_1_4"
    "\<not> startsWith (CHR '' '' # c1) ''@@''" "\<not> startsWith (CHR '' '' # c2) ''@@''"
    "\<not> startsWith (CHR ''+'' # a) ''@@''" "\<not> startsWith (CHR ''-'' # r) ''@@''"
    by (simp_all add: is_added_def is_removed_def is_context_def startsWith_def
        hunk_header_1_3_1_4_def)
  show ?thesis
    unfolding parseDiff_lines lines
    by (simp add: cls ncls header_starts hunk_match_header parseInt_1)
qed

theorem parseDiff_four_lines_witness:
  "newline \<notin> set ''function hello() {'' \<and> newline \<notin> set ''  return 1;''
   \<and> newline \<notin> set ''  return 0;'' \<and> newline \<notin> set ''}''
   \<and> \<not> startsWith ''  return 1;'' ''++'' \<and> \<not> startsWith ''  return 0;'' ''--''
   \<and> parseDiff sample_patch =
        \<lparr>added = [\<lparr>line = 2, content = ''  return 1;''\<rparr>],
         removed = [\<lparr>removed_content = ''  return 0;''\<rparr>],
         ctxt = [\<lparr>line = 1, content = ''function hello() {''\<rparr>,
                 \<lparr>line = 3, content = ''}''\<rparr>]\<rparr>"
proof -
  have h: "newline \<notin> set ''function hello() {''" "newline \<notin> set ''  return 1;''"
    "newline \<notin> set ''  return 0;''" "newline \<notin> set ''}''"
    "\<not> startsWith ''  return 1;'' ''++''" "\<not> startsWith ''  return 0;'' ''--''"
    by (simp_all add: newline_def startsWith_def)
  from parseDiff_four_lines [OF h] h show ?thesis
    by (simp add: sample_patch_def)
qed

text \<open>
  C9, as stated, fails: a hunk header resets the cursor to whatever it says. With a
  header \<open>+10\<close>, an added line, a header \<open>+2\<close> and an added line, the added records are
  numbered 10 and 2.
\<close>

theorem parseDiff_not_monotone:
  "map line (added (parseDiff backward_hunks_patch)) = [10, 2]
   \<and> \<not> sorted (map line (added (parseDiff backward_hunks_patch)))"
  by code_simp

text \<open>
  C9, amended. For every patch in which no matching hunk header sets the cursor below the
  value it has reached (as in a unified diff whose hunks are in ascending order), the line
  numbers of the added records and those of the context records are non-decreasing. For
  every patch, each added or context record carries the number \<open>since_header\<close> of the
  lines before it: the new-start of the most recent matching hunk header (0 when there is
  none) plus the number of added and context lines after that header.
\<close>

theorem parseDiff_monotone_between_headers:
  "(cursor_monotone (rev (split_on newline p)) \<longrightarrow>
      sorted (map line (added (parseDiff p))) \<and> sorted (map line (ctxt (parseDiff p))))
   \<and> added (parseDiff p) = numbered_rev is_added (rev (split_on newline p))
   \<and> ctxt (parseDiff p) = numbered_rev is_context (rev (split_on newline p))"
  using numbered_rev_below_cursor [of "rev (split_on newline p)" is_added]
    numbered_rev_below_cursor [of "rev (split_on newline p)" is_context]
  by (simp add: parseDiff_lines)

theorem parseDiff_monotone_between_headers_witness:
  "cursor_monotone (rev (split_on newline two_hunks_patch))
   \<and> map line (added (parseDiff two_hunks_patch)) = [2, 11]
   \<and> map line (ctxt (parseDiff two_hunks_patch)) = [1, 12]
   \<and> sorted (map line (added (parseDiff two_hunks_patch)))
   \<and> sorted (map line (ctxt (parseDiff two_hunks_patch)))"
proof -
  have h: "cursor_monotone (rev (split_on newline two_hunks_patch))"
    by code_simp
  have a: "map line (added (parseDiff two_hunks_patch)) = [2, 11]"
    by code_simp
  have c: "map line (ctxt (parseDiff two_hunks_patch)) = [1, 12]"
    by code_simp
  from parseDiff_monotone_between_headers [of two_hunks_patch] h a c show ?thesis
    by simp
qed

end
